theory Spec2Isabelle
  imports Complex_Main
begin

section \<open>The SafeVision streaming client: frame throttling and failsafe\<close>

text \<open>
  The embedding follows the browser script that captures camera frames, sends them over
  the socket and draws the processed frames that come back. Its module-level variables
  are the fields of the record \<open>client\<close>; every event handler and timer callback of
  the script is a function from \<open>client\<close> to \<open>client\<close>. The script is single-threaded:
  a handler runs to completion before the next one starts, so one handler is one step.

  Times are milliseconds as returned by \<open>Date.now()\<close>, of type \<open>int\<close>; each handler
  receives the clock value \<open>now\<close> of the moment it runs. Frame rates and qualities are
  JavaScript numbers; they are modelled as exact rationals, so \<open>0.5\<close> is \<open>1/2\<close> and
  \<open>0.2\<close> is \<open>1/5\<close>. Drawing, status texts, the loading animation and the recording
  buttons do not touch the variables modelled here and are left out.

  Besides the script's variables the record holds what the browser keeps for it: the
  table of pending timers with the next free timer id, and the frames that an accepted
  tick has handed to \<open>toBlob\<close> and whose \<open>reader.onload\<close> callback has not run yet,
  each with the quality captured by the callback.
\<close>

subsection \<open>Settings\<close>

record config =
  frameRate :: rat
  videoQuality :: rat
  adaptiveFrameRate :: bool
  maxFrameRate :: rat
  minFrameRate :: rat

definition defaultSettings :: config where
  "defaultSettings =
     \<lparr>frameRate = 5, videoQuality = 4/5, adaptiveFrameRate = True,
      maxFrameRate = 10, minFrameRate = 2\<rparr>"

subsection \<open>Browser timers\<close>

text \<open>
  \<open>setTimeout\<close> and \<open>setInterval\<close> return a fresh numeric id and enter the callback in
  the browser's timer table; \<open>clearTimeout\<close> and \<open>clearInterval\<close> remove the entry with
  that id, and do nothing for \<open>null\<close> or for an id that is no longer in the table. A
  variable that held the id of a one-shot timer keeps it after the timer has run.
\<close>

datatype callback = CaptureTick | StallWarning | Failsafe | RestartCamera

record timer =
  tid :: nat
  handler :: callback
  due :: int
  every :: "int option"

subsection \<open>The script's variables\<close>

record client =
  isStreaming :: bool
  frameInterval :: "nat option"
  frameCount :: nat
  lastProcessedFrameTime :: int
  processingTimeoutWarning :: "nat option"
  pendingFrames :: int
  lastFrameSentTime :: int
  currentAdaptiveFrameRate :: rat
  processingLatencies :: "int list"
  frameDropCount :: nat
  isFrameBeingProcessed :: bool
  currentStream :: bool
  settings :: config
  processingFailsafeTimer :: "nat option"
  fallbackMode :: bool
  videoShown :: bool
  timers :: "timer list"
  next_timer :: nat
  encoding :: "rat list"

text \<open>The values the script gives its variables when it is loaded, after \<open>loadSettings\<close>.\<close>

definition init :: "config \<Rightarrow> client" where
  "init cfg =
     \<lparr>isStreaming = False, frameInterval = None, frameCount = 0,
      lastProcessedFrameTime = 0, processingTimeoutWarning = None, pendingFrames = 0,
      lastFrameSentTime = 0, currentAdaptiveFrameRate = 5, processingLatencies = [],
      frameDropCount = 0, isFrameBeingProcessed = False, currentStream = False,
      settings = cfg, processingFailsafeTimer = None, fallbackMode = False,
      videoShown = False, timers = [], next_timer = 1, encoding = []\<rparr>"

definition setTimeout :: "callback \<Rightarrow> int \<Rightarrow> int \<Rightarrow> client \<Rightarrow> client" where
  "setTimeout cb delay now s =
     s\<lparr>timers := timers s @ [\<lparr>tid = next_timer s, handler = cb, due = now + delay, every = None\<rparr>],
       next_timer := next_timer s + 1\<rparr>"

definition setInterval :: "callback \<Rightarrow> int \<Rightarrow> int \<Rightarrow> client \<Rightarrow> client" where
  "setInterval cb delay now s =
     s\<lparr>timers := timers s @ [\<lparr>tid = next_timer s, handler = cb, due = now + delay, every = Some delay\<rparr>],
       next_timer := next_timer s + 1\<rparr>"

definition clearTimeout :: "nat option \<Rightarrow> client \<Rightarrow> client" where
  "clearTimeout h s =
     (case h of None \<Rightarrow> s
      | Some i \<Rightarrow> s\<lparr>timers := filter (\<lambda>t. tid t \<noteq> i) (timers s)\<rparr>)"

subsection \<open>Capture loop\<close>

definition getEffectiveFrameRate :: "client \<Rightarrow> rat" where
  "getEffectiveFrameRate s =
     (if \<not> adaptiveFrameRate (settings s) then frameRate (settings s)
      else max (minFrameRate (settings s))
               (min (maxFrameRate (settings s)) (currentAdaptiveFrameRate s)))"

text \<open>
  \<open>now - lastFrameSentTime < 1000 / effectiveFrameRate\<close>. In JavaScript a rate of zero
  gives the interval \<open>Infinity\<close>, below which every finite difference lies.
\<close>

definition too_soon :: "int \<Rightarrow> client \<Rightarrow> bool" where
  "too_soon now s =
     (let r = getEffectiveFrameRate s
      in if r = 0 then True
         else of_int (now - lastFrameSentTime s) < 1000 / r)"

definition average :: "int list \<Rightarrow> rat" where
  "average w = of_int (sum_list w) / of_int (int (length w))"

definition dynamicQuality :: "client \<Rightarrow> rat" where
  "dynamicQuality s =
     (let q = videoQuality (settings s)
      in if adaptiveFrameRate (settings s) then
           (if pendingFrames s > 2 then max (3/10) (q - 3/10)
            else if pendingFrames s > 1 then max (1/2) (q - 1/5)
            else if length (processingLatencies s) > 0 then
              (if average (processingLatencies s) > 1000 then max (2/5) (q - 1/5) else q)
            else q)
         else q)"

definition startFrameCapture :: "int \<Rightarrow> client \<Rightarrow> client" where
  "startFrameCapture now s =
     (if isStreaming s then s
      else
        (let s1 = s\<lparr>isStreaming := True, pendingFrames := 0, lastFrameSentTime := 0,
                    currentAdaptiveFrameRate := frameRate (settings s),
                    processingLatencies := [], frameDropCount := 0\<rparr>
         in (setInterval CaptureTick 100 now s1)\<lparr>frameInterval := Some (next_timer s1)\<rparr>))"

definition stopFrameCapture :: "client \<Rightarrow> client" where
  "stopFrameCapture s =
     (let s1 = s\<lparr>isStreaming := False\<rparr>
      in case frameInterval s1 of None \<Rightarrow> s1
         | Some i \<Rightarrow> (clearTimeout (Some i) s1)\<lparr>frameInterval := None\<rparr>)"

text \<open>
  The interval callback. \<open>ready\<close> is \<open>video.readyState === video.HAVE_ENOUGH_DATA\<close>.
  The result holds the new variables and, when the tick accepts the frame, the quality
  handed to \<open>toBlob\<close>; \<open>None\<close> means that no frame is encoded and so none is sent.
\<close>

definition frameTick :: "bool \<Rightarrow> int \<Rightarrow> client \<Rightarrow> client \<times> rat option" where
  "frameTick ready now s =
     (if \<not> ready then (s, None)
      else if too_soon now s then (s, None)
      else if pendingFrames s > 3 then
        (s\<lparr>frameDropCount := frameDropCount s + 1,
           currentAdaptiveFrameRate :=
             (if adaptiveFrameRate (settings s)
              then max (minFrameRate (settings s)) (currentAdaptiveFrameRate s - 1/2)
              else currentAdaptiveFrameRate s)\<rparr>, None)
      else if isFrameBeingProcessed s \<and> pendingFrames s > 1 then
        (s\<lparr>frameDropCount := frameDropCount s + 1\<rparr>, None)
      else
        (let s1 = s\<lparr>frameCount := frameCount s + 1, lastFrameSentTime := now\<rparr>
         in (s1, Some (dynamicQuality s1))))"

text \<open>
  The message emitted as \<open>process_frame\<close>, and the \<open>reader.onload\<close> callback that emits
  it once the accepted frame is encoded with quality \<open>q\<close>.
\<close>

record out_msg =
  sent_timestamp :: int
  frameId :: nat
  quality :: rat

definition reader_onload :: "rat \<Rightarrow> int \<Rightarrow> client \<Rightarrow> client \<times> out_msg" where
  "reader_onload q now s =
     (let s1 = s\<lparr>isFrameBeingProcessed := True, pendingFrames := pendingFrames s + 1\<rparr>;
          m = \<lparr>sent_timestamp = now, frameId = frameCount s1, quality = q\<rparr>;
          s2 = (case processingTimeoutWarning s1 of
                  None \<Rightarrow> (setTimeout StallWarning 5000 now s1)
                            \<lparr>processingTimeoutWarning := Some (next_timer s1)\<rparr>
                | Some i \<Rightarrow> s1)
      in (s2, m))"

subsection \<open>Failsafe\<close>

definition enableFallbackMode :: "client \<Rightarrow> client" where
  "enableFallbackMode s =
     (if fallbackMode s then s else s\<lparr>fallbackMode := True, videoShown := True\<rparr>)"

definition disableFallbackMode :: "client \<Rightarrow> client" where
  "disableFallbackMode s =
     (if \<not> fallbackMode s then s else s\<lparr>fallbackMode := False, videoShown := False\<rparr>)"

definition setupProcessingFailsafe :: "int \<Rightarrow> client \<Rightarrow> client" where
  "setupProcessingFailsafe now s =
     (let s1 = clearTimeout (processingFailsafeTimer s) s
      in (setTimeout Failsafe 10000 now s1)\<lparr>processingFailsafeTimer := Some (next_timer s1)\<rparr>)"

text \<open>The callback armed by \<open>setupProcessingFailsafe\<close>.\<close>

definition failsafe_check :: "int \<Rightarrow> client \<Rightarrow> client" where
  "failsafe_check now s =
     (if now - lastProcessedFrameTime s > 10000 then enableFallbackMode s else s)"

subsection \<open>Processed frames\<close>

text \<open>
  The payload of a \<open>processed_frame\<close> message: \<open>data\<close> itself, its \<open>frame\<close> and its
  \<open>timestamp\<close> may be missing. The frame is an \<open>ArrayBuffer\<close>, given by its bytes.
\<close>

record frame_msg =
  frame :: "nat list option"
  timestamp :: "int option"

text \<open>
  How handling a message with a non-empty frame ends: the bitmap is decoded and drawn;
  \<open>createImageBitmap\<close> rejects; \<open>drawImage\<close> throws inside the \<open>then\<close> callback;
  or the synchronous part of the handler throws.
\<close>

datatype outcome = Decoded | DecodeRejected | DrawThrew | HandlerThrew

definition frame_missing :: "frame_msg option \<Rightarrow> bool" where
  "frame_missing data =
     (case data of None \<Rightarrow> True
      | Some d \<Rightarrow> (case frame d of None \<Rightarrow> True | Some b \<Rightarrow> length b = 0))"

text \<open>The two assignments shared by the end of the \<open>then\<close> callback and both \<open>catch\<close> bodies.\<close>

definition mark_done :: "client \<Rightarrow> client" where
  "mark_done s =
     s\<lparr>pendingFrames := max 0 (pendingFrames s - 1), isFrameBeingProcessed := False\<rparr>"

text \<open>The four latency bands.\<close>

definition adjustFrameRate :: "rat \<Rightarrow> client \<Rightarrow> client" where
  "adjustFrameRate avgLatency s =
     (if avgLatency > 2000 then
        s\<lparr>currentAdaptiveFrameRate :=
            max (minFrameRate (settings s)) (currentAdaptiveFrameRate s - 1)\<rparr>
      else if avgLatency > 1000 then
        s\<lparr>currentAdaptiveFrameRate :=
            max (minFrameRate (settings s)) (currentAdaptiveFrameRate s - 1/2)\<rparr>
      else if avgLatency < 300 then
        s\<lparr>currentAdaptiveFrameRate :=
            min (maxFrameRate (settings s)) (currentAdaptiveFrameRate s + 1/2)\<rparr>
      else if avgLatency < 500 then
        s\<lparr>currentAdaptiveFrameRate :=
            min (maxFrameRate (settings s)) (currentAdaptiveFrameRate s + 1/5)\<rparr>
      else s)"

text \<open>"Reset towards base frame rate if consistently good performance".\<close>

definition resetTowardsBase :: "rat \<Rightarrow> client \<Rightarrow> client" where
  "resetTowardsBase avgLatency s =
     (if avgLatency < 400 \<and> pendingFrames s = 0 \<and> length (processingLatencies s) \<ge> 5 then
        (let recentLatencies = drop (length (processingLatencies s) - 5) (processingLatencies s);
             allGood = list_all (\<lambda>lat. lat < 500) recentLatencies
         in if allGood \<and> currentAdaptiveFrameRate s < frameRate (settings s) then
              s\<lparr>currentAdaptiveFrameRate :=
                  min (frameRate (settings s)) (currentAdaptiveFrameRate s + 3/10)\<rparr>
            else s)
      else s)"

text \<open>\<open>push\<close> the new latency, then \<open>shift\<close> the oldest one out when more than 10 are held.\<close>

definition push_latency :: "int list \<Rightarrow> int \<Rightarrow> int list" where
  "push_latency w latency =
     (let w0 = w @ [latency] in if length w0 > 10 then tl w0 else w0)"

text \<open>The block guarded by \<open>if (data.timestamp)\<close>; a timestamp of zero is falsy.\<close>

definition trackLatency :: "int option \<Rightarrow> int \<Rightarrow> client \<Rightarrow> client" where
  "trackLatency ts now s =
     (case ts of None \<Rightarrow> s
      | Some t \<Rightarrow>
          if t = 0 then s
          else
            (let w = push_latency (processingLatencies s) (now - t);
                 s1 = s\<lparr>processingLatencies := w\<rparr>
             in if adaptiveFrameRate (settings s1) \<and> length w \<ge> 3
                then resetTowardsBase (average w) (adjustFrameRate (average w) s1)
                else s1))"

text \<open>The start of the \<open>then\<close> callback, up to the drawing of the bitmap.\<close>

definition rearm_failsafe :: "int \<Rightarrow> client \<Rightarrow> client" where
  "rearm_failsafe now s =
     (let s1 = (if fallbackMode s then disableFallbackMode s else s);
          s2 = clearTimeout (processingFailsafeTimer s1) s1
      in setupProcessingFailsafe now s2)"

definition clear_warning :: "client \<Rightarrow> client" where
  "clear_warning s =
     (case processingTimeoutWarning s of None \<Rightarrow> s
      | Some i \<Rightarrow> (clearTimeout (Some i) s)\<lparr>processingTimeoutWarning := None\<rparr>)"

definition processed_frame :: "frame_msg option \<Rightarrow> outcome \<Rightarrow> int \<Rightarrow> client \<Rightarrow> client" where
  "processed_frame data oc now s =
     (if frame_missing data then s
      else case oc of
          HandlerThrew \<Rightarrow> mark_done s
        | DecodeRejected \<Rightarrow> mark_done s
        | DrawThrew \<Rightarrow> mark_done (rearm_failsafe now s)
        | Decoded \<Rightarrow>
            (let s1 = rearm_failsafe now s;
                 s2 = clear_warning (s1\<lparr>lastProcessedFrameTime := now\<rparr>);
                 s3 = trackLatency (case data of None \<Rightarrow> None | Some d \<Rightarrow> timestamp d) now s2
             in mark_done s3))"

subsection \<open>Connection, visibility and button handlers\<close>

definition on_connect :: "config \<Rightarrow> client \<Rightarrow> client" where
  "on_connect cfg s =
     s\<lparr>processingLatencies := [], frameDropCount := 0, pendingFrames := 0, settings := cfg\<rparr>"

text \<open>Both listeners registered for \<open>disconnect\<close>, in the order of registration.\<close>

definition on_disconnect :: "int \<Rightarrow> client \<Rightarrow> client" where
  "on_disconnect now s = setupProcessingFailsafe now (stopFrameCapture s)"

definition on_visibilitychange :: "bool \<Rightarrow> int \<Rightarrow> client \<Rightarrow> client" where
  "on_visibilitychange hidden now s =
     (if hidden then stopFrameCapture s
      else if currentStream s \<and> \<not> isStreaming s then startFrameCapture now s
      else s)"

definition on_restart_click :: "int \<Rightarrow> client \<Rightarrow> client" where
  "on_restart_click now s =
     (let s1 = (if fallbackMode s then disableFallbackMode s else s);
          s2 = (case processingFailsafeTimer s1 of None \<Rightarrow> s1
                | Some i \<Rightarrow> (clearTimeout (Some i) s1)\<lparr>processingFailsafeTimer := None\<rparr>);
          s3 = clear_warning s2;
          s4 = s3\<lparr>frameCount := 0, pendingFrames := 0, lastProcessedFrameTime := now\<rparr>;
          s5 = stopFrameCapture s4
      in setTimeout RestartCamera 500 now s5)"

definition applySettings :: "config \<Rightarrow> client \<Rightarrow> client" where
  "applySettings newSettings s =
     (let s1 = s\<lparr>settings := newSettings\<rparr>
      in if currentStream s1 then stopFrameCapture s1 else s1)"

text \<open>\<open>video.onloadedmetadata\<close>, set by \<open>initCamera\<close> once the stream is there.\<close>

definition on_loadedmetadata :: "int \<Rightarrow> client \<Rightarrow> client" where
  "on_loadedmetadata now s = setupProcessingFailsafe now (startFrameCapture now s)"

subsection \<open>Running timers and events\<close>

text \<open>
  Running a timer's callback. A tick that accepts its frame leaves the frame with the
  browser for encoding; the stall warning only writes a status text.
\<close>

definition run_callback :: "callback \<Rightarrow> bool \<Rightarrow> int \<Rightarrow> client \<Rightarrow> client" where
  "run_callback cb ready now s =
     (case cb of
        CaptureTick \<Rightarrow>
          (case frameTick ready now s of
             (s1, None) \<Rightarrow> s1
           | (s1, Some q) \<Rightarrow> s1\<lparr>encoding := encoding s1 @ [q]\<rparr>)
      | StallWarning \<Rightarrow> s
      | Failsafe \<Rightarrow> failsafe_check now s
      | RestartCamera \<Rightarrow> s)"

text \<open>
  The browser runs the timer with id \<open>i\<close> at time \<open>now\<close>: nothing happens unless the
  timer is in the table and due. A one-shot timer leaves the table before its callback
  runs; an interval stays and is due again one period later.
\<close>

definition fire :: "nat \<Rightarrow> bool \<Rightarrow> int \<Rightarrow> client \<Rightarrow> client" where
  "fire i ready now s =
     (case find (\<lambda>t. tid t = i) (timers s) of
        None \<Rightarrow> s
      | Some t \<Rightarrow>
          if now < due t then s
          else
            (let s1 = (case every t of
                         None \<Rightarrow> s\<lparr>timers := filter (\<lambda>u. tid u \<noteq> i) (timers s)\<rparr>
                       | Some p \<Rightarrow>
                           s\<lparr>timers := map (\<lambda>u. if tid u = i then u\<lparr>due := now + p\<rparr> else u)
                                            (timers s)\<rparr>)
             in run_callback (handler t) ready now s1))"

text \<open>
  What can happen to the client. \<open>FrameEncoded ok now\<close> is the end of the oldest
  encoding in progress: with \<open>ok\<close> the blob is there and \<open>reader.onload\<close> runs at
  \<open>now\<close>; without it \<open>toBlob\<close> delivered \<open>null\<close> and nothing is sent.
  \<open>TimerDue i ready now\<close> is the browser running timer \<open>i\<close>.
\<close>

datatype event =
    StreamAcquired
  | LoadedMetadata int
  | TimerDue nat bool int
  | FrameEncoded bool int
  | ProcessedFrame "frame_msg option" outcome int
  | Connect config
  | ConnectError
  | Disconnect int
  | VisibilityChange bool int
  | RestartClick int
  | ApplySettings config
  | SwitchCamera
  | BeforeUnload

fun handle :: "event \<Rightarrow> client \<Rightarrow> client" where
  "handle StreamAcquired s = s\<lparr>currentStream := True\<rparr>"
| "handle (LoadedMetadata now) s = on_loadedmetadata now s"
| "handle (TimerDue i ready now) s = fire i ready now s"
| "handle (FrameEncoded ok now) s =
     (case encoding s of
        [] \<Rightarrow> s
      | q # qs \<Rightarrow>
          if ok then fst (reader_onload q now (s\<lparr>encoding := qs\<rparr>))
          else s\<lparr>encoding := qs\<rparr>)"
| "handle (ProcessedFrame data oc now) s = processed_frame data oc now s"
| "handle (Connect cfg) s = on_connect cfg s"
| "handle ConnectError s = stopFrameCapture s"
| "handle (Disconnect now) s = on_disconnect now s"
| "handle (VisibilityChange hidden now) s = on_visibilitychange hidden now s"
| "handle (RestartClick now) s = on_restart_click now s"
| "handle (ApplySettings cfg) s = applySettings cfg s"
| "handle SwitchCamera s = stopFrameCapture s"
| "handle BeforeUnload s = stopFrameCapture s"

fun run :: "event list \<Rightarrow> client \<Rightarrow> client" where
  "run [] s = s"
| "run (e # es) s = run es (handle e s)"


subsection \<open>Observations, invariants and example sessions\<close>


text \<open>Capture ticks and sends: the events of a session in which no result arrives.\<close>

fun tick_or_send :: "event \<Rightarrow> bool" where
  "tick_or_send (TimerDue i ready now) = True"
| "tick_or_send (FrameEncoded ok now) = True"
| "tick_or_send e = False"

definition no_failsafe_pending :: "client \<Rightarrow> bool" where
  "no_failsafe_pending s =
     (\<not> fallbackMode s \<and> list_all (\<lambda>t. handler t \<noteq> Failsafe) (timers s))"

text \<open>Events that leave the settings \<open>cfg\<close> of the session as they are.\<close>

fun keeps_settings :: "config \<Rightarrow> event \<Rightarrow> bool" where
  "keeps_settings cfg (Connect c) = (c = cfg)"
| "keeps_settings cfg (ApplySettings c) = (c = cfg)"
| "keeps_settings cfg e = True"

definition rate_ok :: "config \<Rightarrow> client \<Rightarrow> bool" where
  "rate_ok cfg s =
     (settings s = cfg \<and> minFrameRate cfg \<le> currentAdaptiveFrameRate s
      \<and> currentAdaptiveFrameRate s \<le> maxFrameRate cfg)"

text \<open>
  The variable \<open>frameInterval\<close> tracks the capture interval: timer ids are fresh, the
  timers that run the capture tick are those whose id \<open>frameInterval\<close> holds, and
  \<open>frameInterval\<close> is \<open>null\<close> while the client is not streaming.
\<close>

definition capture_timers_ok :: "client \<Rightarrow> bool" where
  "capture_timers_ok s =
     (list_all (\<lambda>t. tid t < next_timer s
                    \<and> ((handler t = CaptureTick) = (frameInterval s = Some (tid t))))
               (timers s)
      \<and> (\<not> isStreaming s \<longrightarrow> frameInterval s = None)
      \<and> (case frameInterval s of None \<Rightarrow> True | Some i \<Rightarrow> i < next_timer s))"

text \<open>A processed frame with a one-byte payload, decoded at \<open>now\<close>, \<open>latency\<close> ms after it was sent.\<close>

definition result_after :: "int \<Rightarrow> int \<Rightarrow> event" where
  "result_after latency now =
     ProcessedFrame (Some \<lparr>frame = Some [1], timestamp = Some (now - latency)\<rparr>) Decoded now"

text \<open>
  A session with default settings in which two ticks were accepted and both frames
  have been sent, at 1150 and 1350.
\<close>

definition two_sent :: client where
  "two_sent = run [StreamAcquired, LoadedMetadata 1000,
                   TimerDue 1 True 1100, FrameEncoded True 1150,
                   TimerDue 1 True 1300, FrameEncoded True 1350] (init defaultSettings)"

text \<open>
  Four ticks were accepted before the first frame was encoded; the four frames have
  been sent, at 1750 to 1780, and none is answered.
\<close>

definition overwhelmed :: client where
  "overwhelmed = run [StreamAcquired, LoadedMetadata 1000,
                      TimerDue 1 True 1100, TimerDue 1 True 1300,
                      TimerDue 1 True 1500, TimerDue 1 True 1700,
                      FrameEncoded True 1750, FrameEncoded True 1760,
                      FrameEncoded True 1770, FrameEncoded True 1780] (init defaultSettings)"







text \<open>A session that has sent one frame: capture, failsafe and stall-warning timers are set.\<close>

definition sending :: client where
  "sending = run [StreamAcquired, LoadedMetadata 1000,
                  TimerDue 1 True 1100, FrameEncoded True 1200] (init defaultSettings)"

section \<open>What each building block changes\<close>

lemma clearTimeout_upd:
  "clearTimeout h s =
     s\<lparr>timers := (case h of None \<Rightarrow> timers s | Some i \<Rightarrow> filter (\<lambda>t. tid t \<noteq> i) (timers s))\<rparr>"
  by (cases h) (simp_all add: clearTimeout_def)

lemma setupProcessingFailsafe_upd:
  "setupProcessingFailsafe now s =
     s\<lparr>timers := timers (clearTimeout (processingFailsafeTimer s) s)
                   @ [\<lparr>tid = next_timer s, handler = Failsafe, due = now + 10000, every = None\<rparr>],
       next_timer := next_timer s + 1,
       processingFailsafeTimer := Some (next_timer s)\<rparr>"
  by (simp add: setupProcessingFailsafe_def setTimeout_def clearTimeout_upd Let_def)

lemma setupProcessingFailsafe_fields:
  "pendingFrames (setupProcessingFailsafe now s) = pendingFrames s"
  "currentAdaptiveFrameRate (setupProcessingFailsafe now s) = currentAdaptiveFrameRate s"
  "settings (setupProcessingFailsafe now s) = settings s"
  by (simp_all add: setupProcessingFailsafe_upd)

lemma rearm_failsafe_fields:
  "pendingFrames (rearm_failsafe now s) = pendingFrames s"
  "isFrameBeingProcessed (rearm_failsafe now s) = isFrameBeingProcessed s"
  "currentAdaptiveFrameRate (rearm_failsafe now s) = currentAdaptiveFrameRate s"
  "settings (rearm_failsafe now s) = settings s"
  "processingLatencies (rearm_failsafe now s) = processingLatencies s"
  "lastFrameSentTime (rearm_failsafe now s) = lastFrameSentTime s"
  by (simp_all add: rearm_failsafe_def setupProcessingFailsafe_upd clearTimeout_upd
                    disableFallbackMode_def Let_def)

lemma clear_warning_fields:
  "pendingFrames (clear_warning s) = pendingFrames s"
  "isFrameBeingProcessed (clear_warning s) = isFrameBeingProcessed s"
  "currentAdaptiveFrameRate (clear_warning s) = currentAdaptiveFrameRate s"
  "settings (clear_warning s) = settings s"
  "processingLatencies (clear_warning s) = processingLatencies s"
  by (simp_all add: clear_warning_def clearTimeout_upd split: option.splits)

lemma adjustFrameRate_fields:
  "pendingFrames (adjustFrameRate a s) = pendingFrames s"
  "isFrameBeingProcessed (adjustFrameRate a s) = isFrameBeingProcessed s"
  "settings (adjustFrameRate a s) = settings s"
  "processingLatencies (adjustFrameRate a s) = processingLatencies s"
  by (simp_all add: adjustFrameRate_def)

lemma resetTowardsBase_fields:
  "pendingFrames (resetTowardsBase a s) = pendingFrames s"
  "isFrameBeingProcessed (resetTowardsBase a s) = isFrameBeingProcessed s"
  "settings (resetTowardsBase a s) = settings s"
  "processingLatencies (resetTowardsBase a s) = processingLatencies s"
  by (simp_all add: resetTowardsBase_def Let_def)

lemma trackLatency_fields:
  "pendingFrames (trackLatency ts now s) = pendingFrames s"
  "isFrameBeingProcessed (trackLatency ts now s) = isFrameBeingProcessed s"
  "settings (trackLatency ts now s) = settings s"
  by (simp_all add: trackLatency_def Let_def adjustFrameRate_fields resetTowardsBase_fields
               split: option.splits)

lemma mark_done_fields:
  "pendingFrames (mark_done s) = max 0 (pendingFrames s - 1)"
  "isFrameBeingProcessed (mark_done s) = False"
  "currentAdaptiveFrameRate (mark_done s) = currentAdaptiveFrameRate s"
  "settings (mark_done s) = settings s"
  "lastFrameSentTime (mark_done s) = lastFrameSentTime s"
  by (simp_all add: mark_done_def)

lemma stopFrameCapture_fields:
  "pendingFrames (stopFrameCapture s) = pendingFrames s"
  "currentAdaptiveFrameRate (stopFrameCapture s) = currentAdaptiveFrameRate s"
  "settings (stopFrameCapture s) = settings s"
  by (simp_all add: stopFrameCapture_def clearTimeout_upd Let_def split: option.splits)

lemma reader_onload_fields:
  "pendingFrames (fst (reader_onload q now s)) = pendingFrames s + 1"
  "currentAdaptiveFrameRate (fst (reader_onload q now s)) = currentAdaptiveFrameRate s"
  "settings (fst (reader_onload q now s)) = settings s"
  by (simp_all add: reader_onload_def setTimeout_def Let_def split: option.splits)

lemma frameTick_fields:
  "pendingFrames (fst (frameTick ready now s)) = pendingFrames s"
  "fallbackMode (fst (frameTick ready now s)) = fallbackMode s"
  "timers (fst (frameTick ready now s)) = timers s"
  by (simp_all add: frameTick_def Let_def)

lemma run_callback_CaptureTick:
  "run_callback CaptureTick ready now s =
     (fst (frameTick ready now s))
       \<lparr>encoding := encoding (fst (frameTick ready now s))
                     @ (case snd (frameTick ready now s) of None \<Rightarrow> [] | Some q \<Rightarrow> [q])\<rparr>"
  by (cases "frameTick ready now s") (auto simp: run_callback_def split: option.splits)

lemma run_callback_other:
  "run_callback StallWarning ready now s = s"
  "run_callback Failsafe ready now s = failsafe_check now s"
  "run_callback RestartCamera ready now s = s"
  by (simp_all add: run_callback_def)

lemma handle_FrameEncoded:
  "handle (FrameEncoded ok now) s =
     (if encoding s = [] then s
      else if ok then fst (reader_onload (hd (encoding s)) now (s\<lparr>encoding := tl (encoding s)\<rparr>))
      else s\<lparr>encoding := tl (encoding s)\<rparr>)"
  by (cases "encoding s") simp_all

lemma frame_missing_ignored: "frame_missing data \<Longrightarrow> processed_frame data oc now s = s"
  by (simp add: processed_frame_def)

lemma result_bookkeeping:
  assumes "\<not> frame_missing data"
  shows "pendingFrames (processed_frame data oc now s) = max 0 (pendingFrames s - 1)"
    and "\<not> isFrameBeingProcessed (processed_frame data oc now s)"
  using assms
  by (cases oc;
      simp add: processed_frame_def Let_def mark_done_fields trackLatency_fields
                clear_warning_fields rearm_failsafe_fields)+

section \<open>Failsafe: the timer that fires on time\<close>

text \<open>
  Claim C1. After the last successful processed frame, more than 10 seconds without a
  further success must bring the display to Fallback. In the script the callback armed by
  \<open>setupProcessingFailsafe\<close> is a one-shot timer of 10000 ms that tests
  \<open>Date.now() - lastProcessedFrameTime > 10000\<close>, and the handler of a processed frame
  arms it and then sets \<open>lastProcessedFrameTime\<close>, in the same step: the test succeeds
  only when the browser runs the timer later than it is due. The trace below starts a
  session at 1000, sends a frame at 1150, receives its processed frame at 5000 and lets
  the failsafe timer armed then (id 4) run exactly when it is due, at 15000: the
  difference is 10000, the test fails, and the timer is gone. A capture tick 25 seconds
  after the last success still finds the display in Normal mode, with no failsafe timer
  left to change that.
\<close>

theorem failsafe_timer_on_time_never_falls_back:
  "(let s = run [StreamAcquired, LoadedMetadata 1000,
                 TimerDue 1 True 1100, FrameEncoded True 1150,
                 ProcessedFrame (Some \<lparr>frame = Some [1], timestamp = Some 1150\<rparr>) Decoded 5000]
                (init defaultSettings);
        s' = run [TimerDue 4 True 15000, TimerDue 1 True 30000] s
    in lastProcessedFrameTime s = 5000 \<and> \<not> fallbackMode s
       \<and> filter (\<lambda>t. handler t = Failsafe) (timers s)
           = [\<lparr>tid = 4, handler = Failsafe, due = 15000, every = None\<rparr>]
       \<and> lastProcessedFrameTime s' = 5000 \<and> \<not> fallbackMode s' \<and> \<not> videoShown s'
       \<and> filter (\<lambda>t. handler t = Failsafe) (timers s') = [])"
  by code_simp

text \<open>
  Ticks and sends alone never leave Normal mode once no failsafe timer is in the table,
  however many of them follow.
\<close>

lemma fire_no_failsafe:
  assumes "no_failsafe_pending s"
  shows "no_failsafe_pending (fire i ready now s)"
proof (cases "find (\<lambda>t. tid t = i) (timers s)")
  case None
  then show ?thesis using assms by (simp add: fire_def)
next
  case (Some t)
  then have "t \<in> set (timers s)"
    by (auto simp: find_Some_iff)
  with assms have nf: "handler t \<noteq> Failsafe"
    by (auto simp: no_failsafe_pending_def list_all_iff)
  show ?thesis
  proof (cases "now < due t")
    case True
    then show ?thesis using assms Some by (simp add: fire_def)
  next
    case False
    with Some nf assms show ?thesis
      by (cases "handler t"; cases "every t")
         (auto simp: fire_def run_callback_CaptureTick run_callback_other
                     no_failsafe_pending_def list_all_iff frameTick_fields)
  qed
qed

lemma reader_onload_no_failsafe:
  "no_failsafe_pending s \<Longrightarrow> no_failsafe_pending (fst (reader_onload q now s))"
  by (auto simp: reader_onload_def no_failsafe_pending_def setTimeout_def Let_def
           split: option.splits)

lemma no_failsafe_encoding: "no_failsafe_pending (s\<lparr>encoding := qs\<rparr>) = no_failsafe_pending s"
  by (simp add: no_failsafe_pending_def)

lemma stays_normal_without_failsafe_timer:
  "no_failsafe_pending s \<Longrightarrow> list_all tick_or_send es \<Longrightarrow> no_failsafe_pending (run es s)"
proof (induction es arbitrary: s)
  case Nil
  then show ?case by simp
next
  case (Cons e es)
  then show ?case
    by (cases e)
       (simp_all add: fire_no_failsafe handle_FrameEncoded reader_onload_no_failsafe
                      no_failsafe_encoding del: handle.simps(4))
qed

text \<open>
  When the timer runs late, by a millisecond or more, the display does go to Fallback,
  and the next decoded frame brings it back and arms a new timer.
\<close>

lemma failsafe_late_then_recovers:
  "(let s = run [StreamAcquired, LoadedMetadata 1000,
                 TimerDue 1 True 1100, FrameEncoded True 1150,
                 ProcessedFrame (Some \<lparr>frame = Some [1], timestamp = Some 1150\<rparr>) Decoded 5000,
                 TimerDue 4 True 15001] (init defaultSettings);
        s' = handle (ProcessedFrame (Some \<lparr>frame = Some [1], timestamp = Some 16000\<rparr>)
                       Decoded 17000) s
    in fallbackMode s \<and> videoShown s \<and> \<not> fallbackMode s' \<and> \<not> videoShown s'
       \<and> filter (\<lambda>t. handler t = Failsafe) (timers s')
           = [\<lparr>tid = 5, handler = Failsafe, due = 27000, every = None\<rparr>])"
  by code_simp

section \<open>Empty payloads\<close>

text \<open>
  Claim C2. A processed-frame message whose frame is missing or empty must still
  decrement the pending count. The handler logs and returns before any assignment: with
  two frames sent and two such results received, two frames are still counted as
  pending and the in-flight flag is still set, so the next capture tick that passes the
  pacing check is dropped instead of sent.
\<close>

theorem empty_frame_leaves_pending_count:
  "(let s = run [ProcessedFrame (Some \<lparr>frame = Some [], timestamp = Some 1150\<rparr>) Decoded 1800,
                 ProcessedFrame (Some \<lparr>frame = None, timestamp = Some 1350\<rparr>) Decoded 1900]
                two_sent
    in pendingFrames two_sent = 2 \<and> pendingFrames s = 2 \<and> isFrameBeingProcessed s
       \<and> \<not> too_soon 2500 s \<and> snd (frameTick True 2500 s) = None
       \<and> frameDropCount (fst (frameTick True 2500 s)) = 1)"
  by code_simp

section \<open>The hard drop\<close>

text \<open>
  Claim C4. A capture tick that passes the pacing check while more than 3 frames are
  pending drops the frame: the drop counter grows by exactly 1, no frame is encoded or
  sent, the pending count is unchanged and, in adaptive mode, the current rate becomes
  \<open>max(min, current - 0.5)\<close>. No other variable changes.
\<close>

theorem hard_drop_on_overload:
  assumes "ready" and "\<not> too_soon now s" and "3 < pendingFrames s"
    and "(s', sent) = frameTick ready now s"
  shows "sent = None
       \<and> frameDropCount s' = frameDropCount s + 1
       \<and> pendingFrames s' = pendingFrames s
       \<and> currentAdaptiveFrameRate s' =
            (if adaptiveFrameRate (settings s)
             then max (minFrameRate (settings s)) (currentAdaptiveFrameRate s - 1/2)
             else currentAdaptiveFrameRate s)
       \<and> s'\<lparr>frameDropCount := frameDropCount s,
             currentAdaptiveFrameRate := currentAdaptiveFrameRate s\<rparr> = s"
  using assms by (simp add: frameTick_def)

text \<open>With four frames pending and default settings, the tick at 2000 lowers the rate from 5 to 4.5.\<close>

theorem hard_drop_on_overload_witness:
  "\<not> too_soon 2000 overwhelmed \<and> 3 < pendingFrames overwhelmed
   \<and> snd (frameTick True 2000 overwhelmed) = None
   \<and> frameDropCount (fst (frameTick True 2000 overwhelmed)) = 1
   \<and> pendingFrames (fst (frameTick True 2000 overwhelmed)) = 4
   \<and> currentAdaptiveFrameRate (fst (frameTick True 2000 overwhelmed)) = 9/2"
proof -
  have h1: "\<not> too_soon 2000 overwhelmed" by code_simp
  have h2: "3 < pendingFrames overwhelmed" by code_simp
  have v: "frameDropCount overwhelmed = 0" "pendingFrames overwhelmed = 4"
    "adaptiveFrameRate (settings overwhelmed)" "minFrameRate (settings overwhelmed) = 2"
    "currentAdaptiveFrameRate overwhelmed = 5"
    by code_simp+
  have "(fst (frameTick True 2000 overwhelmed), snd (frameTick True 2000 overwhelmed))
          = frameTick True 2000 overwhelmed"
    by simp
  from hard_drop_on_overload [OF TrueI h1 h2 this] show ?thesis
    using h1 h2 by (simp add: v)
qed

section \<open>Bookkeeping on a result\<close>

text \<open>
  Claim C7, as stated, fails: the in-flight flag does not stay set while sent frames
  still await their result. With two frames sent, the first decoded result leaves one
  frame pending and clears the flag.
\<close>

theorem flag_cleared_with_frame_pending:
  "(let s' = processed_frame (Some \<lparr>frame = Some [1], timestamp = Some 1150\<rparr>) Decoded 1800 two_sent
    in pendingFrames two_sent = 2 \<and> isFrameBeingProcessed two_sent
       \<and> pendingFrames s' = 1 \<and> \<not> isFrameBeingProcessed s')"
  by code_simp

text \<open>
  Claim C7, amended. On every receipt of a processed-frame result with a non-empty
  payload, whatever becomes of its decoding, \<open>pendingFrames\<close> is decremented with a
  floor of 0 and \<open>isFrameBeingProcessed\<close> is cleared, whether or not other frames are
  still pending.
\<close>

theorem result_decrements_and_clears_flag:
  assumes "\<not> frame_missing data"
  shows "pendingFrames (processed_frame data oc now s) = max 0 (pendingFrames s - 1)
       \<and> \<not> isFrameBeingProcessed (processed_frame data oc now s)"
  using result_bookkeeping [OF assms] by simp

theorem result_decrements_and_clears_flag_witness:
  "\<not> frame_missing (Some \<lparr>frame = Some [7, 7], timestamp = None\<rparr>)
   \<and> pendingFrames (processed_frame (Some \<lparr>frame = Some [7, 7], timestamp = None\<rparr>)
                      Decoded 2100 overwhelmed) = 3
   \<and> \<not> isFrameBeingProcessed (processed_frame (Some \<lparr>frame = Some [7, 7], timestamp = None\<rparr>)
                      Decoded 2100 overwhelmed)"
proof -
  have h: "\<not> frame_missing (Some \<lparr>frame = Some [7, 7], timestamp = None\<rparr>)"
    by (simp add: frame_missing_def)
  have v: "pendingFrames overwhelmed = 4" by code_simp
  from result_decrements_and_clears_flag [OF h, of Decoded 2100 overwhelmed] show ?thesis
    using h by (simp add: v)
qed

text \<open>
  Claim C10. When a non-empty processed frame cannot be decoded or drawn
  (\<open>createImageBitmap\<close> rejects, \<open>drawImage\<close> throws, or the handler itself throws),
  \<open>pendingFrames\<close> is still decremented with a floor of 0 and \<open>isFrameBeingProcessed\<close>
  is cleared. The gate is not blocked by it: if at most 4 frames were pending, the next
  tick that passes the pacing check accepts its frame.
\<close>

theorem failed_frame_still_counted:
  assumes "\<not> frame_missing data" and "oc \<noteq> Decoded"
    and "s' = processed_frame data oc now s"
  shows "pendingFrames s' = max 0 (pendingFrames s - 1)
       \<and> \<not> isFrameBeingProcessed s'
       \<and> (pendingFrames s \<le> 4 \<longrightarrow> \<not> too_soon later s' \<longrightarrow> snd (frameTick True later s') \<noteq> None)"
proof -
  have a: "pendingFrames s' = max 0 (pendingFrames s - 1)" and b: "\<not> isFrameBeingProcessed s'"
    using result_bookkeeping [OF assms(1)] assms(3) by simp_all
  have "snd (frameTick True later s') \<noteq> None"
    if "pendingFrames s \<le> 4" and "\<not> too_soon later s'"
    using that a b by (simp add: frameTick_def Let_def)
  with a b show ?thesis by simp
qed

theorem failed_frame_still_counted_witness:
  "\<not> frame_missing (Some \<lparr>frame = Some [0], timestamp = Some 1750\<rparr>) \<and> DrawThrew \<noteq> Decoded
   \<and> pendingFrames overwhelmed = 4 \<and> isFrameBeingProcessed overwhelmed
   \<and> pendingFrames (processed_frame (Some \<lparr>frame = Some [0], timestamp = Some 1750\<rparr>)
                      DrawThrew 2100 overwhelmed) = 3
   \<and> \<not> isFrameBeingProcessed (processed_frame (Some \<lparr>frame = Some [0], timestamp = Some 1750\<rparr>)
                      DrawThrew 2100 overwhelmed)
   \<and> snd (frameTick True 2500 (processed_frame (Some \<lparr>frame = Some [0], timestamp = Some 1750\<rparr>)
                      DrawThrew 2100 overwhelmed)) \<noteq> None"
proof -
  have h: "\<not> frame_missing (Some \<lparr>frame = Some [0], timestamp = Some 1750\<rparr>)"
    by (simp add: frame_missing_def)
  have v: "pendingFrames overwhelmed = 4" "isFrameBeingProcessed overwhelmed"
    by code_simp+
  have p: "\<not> too_soon 2500 (processed_frame (Some \<lparr>frame = Some [0], timestamp = Some 1750\<rparr>)
                      DrawThrew 2100 overwhelmed)"
    by code_simp
  from failed_frame_still_counted [OF h _ refl, of DrawThrew 2100 overwhelmed 2500] show ?thesis
    using h p by (simp add: v)
qed

section \<open>The pending count is never negative\<close>

lemma startFrameCapture_pending:
  "0 \<le> pendingFrames s \<Longrightarrow> 0 \<le> pendingFrames (startFrameCapture now s)"
  by (simp add: startFrameCapture_def setInterval_def Let_def)

lemma fire_pending: "pendingFrames (fire i ready now s) = pendingFrames s"
proof (cases "find (\<lambda>t. tid t = i) (timers s)")
  case None
  then show ?thesis by (simp add: fire_def)
next
  case (Some t)
  then show ?thesis
    by (cases "handler t"; cases "every t")
       (simp_all add: fire_def run_callback_CaptureTick run_callback_other frameTick_fields
                      failsafe_check_def enableFallbackMode_def)
qed

lemma processed_frame_pending:
  "0 \<le> pendingFrames s \<Longrightarrow> 0 \<le> pendingFrames (processed_frame data oc now s)"
  by (cases "frame_missing data") (simp_all add: frame_missing_ignored result_bookkeeping)

lemma handle_pending:
  assumes "0 \<le> pendingFrames s"
  shows "0 \<le> pendingFrames (handle e s)"
proof (cases e)
  case (RestartClick now)
  then show ?thesis
    by (simp add: on_restart_click_def setTimeout_def stopFrameCapture_fields Let_def)
next
  case (ProcessedFrame data oc now)
  with assms show ?thesis by (simp add: processed_frame_pending)
next
  case (FrameEncoded ok now)
  with assms show ?thesis
    by (simp add: handle_FrameEncoded reader_onload_fields del: handle.simps(4))
qed (use assms in \<open>simp_all add: on_loadedmetadata_def setupProcessingFailsafe_fields
       startFrameCapture_pending fire_pending on_connect_def Let_def
       stopFrameCapture_fields on_disconnect_def on_visibilitychange_def applySettings_def\<close>)

lemma run_pending: "0 \<le> pendingFrames s \<Longrightarrow> 0 \<le> pendingFrames (run es s)"
  by (induction es arbitrary: s) (simp_all add: handle_pending)

text \<open>
  Claim C9. \<open>pendingFrames\<close> is never negative in a state the client can reach from its
  start by any sequence of events, and a result that arrives while nothing is counted as
  pending (a duplicate or late message) leaves the count at 0.
\<close>

theorem pending_never_negative:
  "0 \<le> pendingFrames (run es (init cfg))
   \<and> (pendingFrames (run es (init cfg)) = 0 \<longrightarrow>
        pendingFrames (handle (ProcessedFrame data oc now) (run es (init cfg))) = 0)"
proof -
  have "0 \<le> pendingFrames (run es (init cfg))"
    by (rule run_pending) (simp add: init_def)
  moreover have "pendingFrames (processed_frame data oc now x) = 0" if "pendingFrames x = 0" for x
    using that
    by (cases "frame_missing data") (simp_all add: frame_missing_ignored result_bookkeeping)
  ultimately show ?thesis by simp
qed

text \<open>One frame sent, three results received: the count is 0 after the first and stays 0.\<close>

theorem pending_never_negative_witness:
  "pendingFrames (run [StreamAcquired, LoadedMetadata 1000, TimerDue 1 True 1100,
                       FrameEncoded True 1300, result_after 300 1600, result_after 300 1700]
                    (init defaultSettings)) = 0
   \<and> pendingFrames (handle (result_after 300 1800)
        (run [StreamAcquired, LoadedMetadata 1000, TimerDue 1 True 1100,
              FrameEncoded True 1300, result_after 300 1600, result_after 300 1700]
           (init defaultSettings))) = 0"
proof -
  have z: "pendingFrames (run [StreamAcquired, LoadedMetadata 1000, TimerDue 1 True 1100,
                       FrameEncoded True 1300, result_after 300 1600, result_after 300 1700]
                    (init defaultSettings)) = 0"
    by code_simp
  from pending_never_negative
         [of "[StreamAcquired, LoadedMetadata 1000, TimerDue 1 True 1100,
               FrameEncoded True 1300, result_after 300 1600, result_after 300 1700]"
             defaultSettings
             "Some \<lparr>frame = Some [1], timestamp = Some (1800 - 300)\<rparr>" Decoded 1800]
  show ?thesis using z by (simp add: result_after_def)
qed

section \<open>Latency bands and recovery\<close>











section \<open>The rate stays within its bounds\<close>

lemma rate_ok_start:
  assumes "minFrameRate cfg \<le> frameRate cfg" and "frameRate cfg \<le> maxFrameRate cfg"
    and "settings s = cfg" and "\<not> isStreaming s"
  shows "rate_ok cfg (startFrameCapture now s)"
  using assms by (simp add: rate_ok_def startFrameCapture_def setInterval_def Let_def)

lemma rate_ok_startFrameCapture:
  assumes "minFrameRate cfg \<le> frameRate cfg" and "frameRate cfg \<le> maxFrameRate cfg"
    and "rate_ok cfg s"
  shows "rate_ok cfg (startFrameCapture now s)"
  using assms by (simp add: rate_ok_def startFrameCapture_def setInterval_def Let_def)

lemma rate_ok_simple:
  "rate_ok cfg (stopFrameCapture s) = rate_ok cfg s"
  "rate_ok cfg (setupProcessingFailsafe now s) = rate_ok cfg s"
  "rate_ok cfg (fst (reader_onload q now s)) = rate_ok cfg s"
  "rate_ok cfg (clear_warning s) = rate_ok cfg s"
  "rate_ok cfg (rearm_failsafe now s) = rate_ok cfg s"
  "rate_ok cfg (mark_done s) = rate_ok cfg s"
  "rate_ok cfg (s\<lparr>timers := ts\<rparr>) = rate_ok cfg s"
  "rate_ok cfg (s\<lparr>encoding := qs\<rparr>) = rate_ok cfg s"
  by (simp_all add: rate_ok_def stopFrameCapture_fields setupProcessingFailsafe_fields
        reader_onload_fields clear_warning_fields rearm_failsafe_fields mark_done_fields)

lemma rate_ok_frameTick:
  "rate_ok cfg s \<Longrightarrow> rate_ok cfg (fst (frameTick ready now s))"
  by (auto simp: rate_ok_def frameTick_def Let_def)

lemma rate_ok_adjustFrameRate:
  "rate_ok cfg s \<Longrightarrow> rate_ok cfg (adjustFrameRate a s)"
  by (auto simp: rate_ok_def adjustFrameRate_def)

lemma rate_ok_resetTowardsBase:
  "frameRate cfg \<le> maxFrameRate cfg \<Longrightarrow> rate_ok cfg s \<Longrightarrow> rate_ok cfg (resetTowardsBase a s)"
  by (auto simp: rate_ok_def resetTowardsBase_def Let_def)

lemma rate_ok_trackLatency:
  "frameRate cfg \<le> maxFrameRate cfg \<Longrightarrow> rate_ok cfg s \<Longrightarrow> rate_ok cfg (trackLatency ts now s)"
  by (cases ts)
     (auto simp: trackLatency_def Let_def rate_ok_def
           intro!: rate_ok_resetTowardsBase [unfolded rate_ok_def, simplified]
                   rate_ok_adjustFrameRate [unfolded rate_ok_def, simplified])

lemma rate_ok_processed_frame:
  assumes "frameRate cfg \<le> maxFrameRate cfg" and "rate_ok cfg s"
  shows "rate_ok cfg (processed_frame data oc now s)"
proof (cases "frame_missing data")
  case True
  with assms show ?thesis by (simp add: frame_missing_ignored)
next
  case False
  have "rate_ok cfg (clear_warning (rearm_failsafe now s\<lparr>lastProcessedFrameTime := now\<rparr>))"
    using assms(2)
    by (simp add: rate_ok_def clear_warning_fields rearm_failsafe_fields)
  with False assms show ?thesis
    by (cases oc) (simp_all add: processed_frame_def Let_def rate_ok_simple rate_ok_trackLatency)
qed

lemma rate_ok_run_callback:
  "rate_ok cfg s \<Longrightarrow> rate_ok cfg (run_callback cb ready now s)"
  by (cases cb)
     (simp_all add: run_callback_CaptureTick rate_ok_simple run_callback_other rate_ok_frameTick
                    failsafe_check_def enableFallbackMode_def, simp add: rate_ok_def)

lemma rate_ok_fire:
  assumes "rate_ok cfg s"
  shows "rate_ok cfg (fire i ready now s)"
proof (cases "find (\<lambda>t. tid t = i) (timers s)")
  case None
  with assms show ?thesis by (simp add: fire_def)
next
  case (Some t)
  with assms show ?thesis
    by (cases "every t") (simp_all add: fire_def rate_ok_run_callback rate_ok_simple)
qed

lemma rate_ok_handle:
  assumes "minFrameRate cfg \<le> frameRate cfg" and "frameRate cfg \<le> maxFrameRate cfg"
    and "rate_ok cfg s" and "keeps_settings cfg e"
  shows "rate_ok cfg (handle e s)"
proof (cases e)
  case StreamAcquired
  with assms show ?thesis by (simp add: rate_ok_def)
next
  case (LoadedMetadata now)
  with assms show ?thesis
    by (simp add: on_loadedmetadata_def rate_ok_simple rate_ok_startFrameCapture)
next
  case (TimerDue i ready now)
  with assms show ?thesis by (simp add: rate_ok_fire)
next
  case (FrameEncoded ok now)
  with assms show ?thesis
    by (simp add: handle_FrameEncoded rate_ok_simple del: handle.simps(4))
next
  case (ProcessedFrame data oc now)
  with assms show ?thesis by (simp add: rate_ok_processed_frame)
next
  case (Connect c)
  with assms show ?thesis by (simp add: on_connect_def rate_ok_def)
next
  case ConnectError
  with assms show ?thesis by (simp add: rate_ok_simple)
next
  case (Disconnect now)
  with assms show ?thesis by (simp add: on_disconnect_def rate_ok_simple)
next
  case (VisibilityChange hidden now)
  with assms show ?thesis
    by (simp add: on_visibilitychange_def rate_ok_simple rate_ok_startFrameCapture)
next
  case (RestartClick now)
  have "rate_ok cfg (on_restart_click now s)"
    using assms(3)
    by (simp add: rate_ok_def on_restart_click_def Let_def setTimeout_def
                  stopFrameCapture_fields clear_warning_fields clearTimeout_upd
                  disableFallbackMode_def
             split: option.splits)
  with RestartClick show ?thesis by simp
next
  case (ApplySettings c)
  with assms show ?thesis
    by (simp add: applySettings_def Let_def rate_ok_simple) (simp add: rate_ok_def)
next
  case SwitchCamera
  with assms show ?thesis by (simp add: rate_ok_simple)
next
  case BeforeUnload
  with assms show ?thesis by (simp add: rate_ok_simple)
qed

lemma rate_ok_run:
  assumes "minFrameRate cfg \<le> frameRate cfg" and "frameRate cfg \<le> maxFrameRate cfg"
  shows "rate_ok cfg s \<Longrightarrow> list_all (keeps_settings cfg) es \<Longrightarrow> rate_ok cfg (run es s)"
proof (induction es arbitrary: s)
  case Nil
  then show ?case by simp
next
  case (Cons e es)
  then show ?case using assms by (simp add: rate_ok_handle)
qed

text \<open>
  Claim C8, as stated, fails: the session start copies the configured base rate into the
  current rate without clamping it. With a base rate of 15 and the default bounds 2 and
  10, the current rate is 15 after the session start; only the rate that
  \<open>getEffectiveFrameRate\<close> computes for pacing is clamped.
\<close>

theorem base_rate_above_max_is_not_clamped:
  "(let s = run [StreamAcquired, LoadedMetadata 1000] (init (defaultSettings\<lparr>frameRate := 15\<rparr>))
    in isStreaming s \<and> minFrameRate (settings s) = 2 \<and> maxFrameRate (settings s) = 10
       \<and> currentAdaptiveFrameRate s = 15
       \<and> \<not> currentAdaptiveFrameRate s \<le> maxFrameRate (settings s)
       \<and> getEffectiveFrameRate s = 10)"
  by code_simp

text \<open>
  Claim C8, amended. When the settings satisfy \<open>min \<le> base \<le> max\<close> (as the defaults
  2, 5, 10 do), every state reached from a session start by capture ticks, sends, result
  receipts, timers, stops, restarts and connection events that leave the settings as they
  are has \<open>min \<le> current \<le> max\<close>.
\<close>

theorem rate_within_bounds:
  assumes "minFrameRate cfg \<le> frameRate cfg" and "frameRate cfg \<le> maxFrameRate cfg"
    and "settings s0 = cfg" and "\<not> isStreaming s0"
    and "list_all (keeps_settings cfg) es"
    and "s = run es (startFrameCapture now s0)"
  shows "minFrameRate cfg \<le> currentAdaptiveFrameRate s
       \<and> currentAdaptiveFrameRate s \<le> maxFrameRate cfg"
proof -
  have "rate_ok cfg (startFrameCapture now s0)"
    using assms(1-4) by (rule rate_ok_start)
  then have "rate_ok cfg s"
    unfolding assms(6) using assms(5) by (rule rate_ok_run [OF assms(1,2)])
  then show ?thesis by (simp add: rate_ok_def)
qed

text \<open>
  A session with default settings: four accepted ticks and sends, two dropped ticks, a
  result, the tab hidden and shown again (which restarts the capture), and a late result.
\<close>

theorem rate_within_bounds_witness:
  "minFrameRate defaultSettings \<le> frameRate defaultSettings
   \<and> frameRate defaultSettings \<le> maxFrameRate defaultSettings
   \<and> \<not> isStreaming (handle StreamAcquired (init defaultSettings))
   \<and> list_all (keeps_settings defaultSettings)
        [TimerDue 1 True 1100, TimerDue 1 True 1300, TimerDue 1 True 1500, TimerDue 1 True 1700,
         FrameEncoded True 1750, FrameEncoded True 1760, FrameEncoded True 1770,
         FrameEncoded True 1780, TimerDue 1 True 1900, TimerDue 1 True 2000,
         result_after 300 2050, VisibilityChange True 2100,
         VisibilityChange False 2200, result_after 300 2360]
   \<and> 2 \<le> currentAdaptiveFrameRate
        (run [TimerDue 1 True 1100, TimerDue 1 True 1300, TimerDue 1 True 1500, TimerDue 1 True 1700,
              FrameEncoded True 1750, FrameEncoded True 1760, FrameEncoded True 1770,
              FrameEncoded True 1780, TimerDue 1 True 1900, TimerDue 1 True 2000,
              result_after 300 2050, VisibilityChange True 2100,
              VisibilityChange False 2200, result_after 300 2360]
           (startFrameCapture 1000 (handle StreamAcquired (init defaultSettings))))
   \<and> currentAdaptiveFrameRate
        (run [TimerDue 1 True 1100, TimerDue 1 True 1300, TimerDue 1 True 1500, TimerDue 1 True 1700,
              FrameEncoded True 1750, FrameEncoded True 1760, FrameEncoded True 1770,
              FrameEncoded True 1780, TimerDue 1 True 1900, TimerDue 1 True 2000,
              result_after 300 2050, VisibilityChange True 2100,
              VisibilityChange False 2200, result_after 300 2360]
           (startFrameCapture 1000 (handle StreamAcquired (init defaultSettings)))) \<le> 10"
proof -
  have h1: "minFrameRate defaultSettings \<le> frameRate defaultSettings"
    and h2: "frameRate defaultSettings \<le> maxFrameRate defaultSettings"
    by (simp_all add: defaultSettings_def)
  have h3: "settings (handle StreamAcquired (init defaultSettings)) = defaultSettings"
    and h4: "\<not> isStreaming (handle StreamAcquired (init defaultSettings))"
    by (simp_all add: init_def)
  have h5: "list_all (keeps_settings defaultSettings)
        [TimerDue 1 True 1100, TimerDue 1 True 1300, TimerDue 1 True 1500, TimerDue 1 True 1700,
         FrameEncoded True 1750, FrameEncoded True 1760, FrameEncoded True 1770,
         FrameEncoded True 1780, TimerDue 1 True 1900, TimerDue 1 True 2000,
         result_after 300 2050, VisibilityChange True 2100,
         VisibilityChange False 2200, result_after 300 2360]"
    by (simp add: result_after_def)
  have v: "minFrameRate defaultSettings = 2" "maxFrameRate defaultSettings = 10"
    by (simp_all add: defaultSettings_def)
  from rate_within_bounds [OF h1 h2 h3 h4 h5 refl, of 1000] show ?thesis
    using h1 h2 h4 h5 by (simp only: v) simp
qed

section \<open>Timers when a session stops\<close>

lemma cap_ok_timers_filter:
  "capture_timers_ok s \<Longrightarrow> capture_timers_ok (s\<lparr>timers := filter P (timers s)\<rparr>)"
  by (auto simp: capture_timers_ok_def list_all_iff split: option.splits)

lemma cap_ok_clearTimeout:
  "capture_timers_ok s \<Longrightarrow> capture_timers_ok (clearTimeout h s)"
  by (cases h) (simp_all add: clearTimeout_def cap_ok_timers_filter)

lemma cap_ok_setTimeout:
  "cb \<noteq> CaptureTick \<Longrightarrow> capture_timers_ok s \<Longrightarrow> capture_timers_ok (setTimeout cb d now s)"
  by (auto simp: capture_timers_ok_def setTimeout_def list_all_iff split: option.splits)

lemma cap_ok_other_fields:
  "capture_timers_ok (s\<lparr>processingFailsafeTimer := a\<rparr>) = capture_timers_ok s"
  "capture_timers_ok (s\<lparr>processingTimeoutWarning := b\<rparr>) = capture_timers_ok s"
  "capture_timers_ok (s\<lparr>fallbackMode := c\<rparr>) = capture_timers_ok s"
  "capture_timers_ok (s\<lparr>videoShown := d\<rparr>) = capture_timers_ok s"
  "capture_timers_ok (s\<lparr>lastProcessedFrameTime := e\<rparr>) = capture_timers_ok s"
  "capture_timers_ok (s\<lparr>pendingFrames := f\<rparr>) = capture_timers_ok s"
  "capture_timers_ok (s\<lparr>isFrameBeingProcessed := g\<rparr>) = capture_timers_ok s"
  "capture_timers_ok (s\<lparr>processingLatencies := h\<rparr>) = capture_timers_ok s"
  "capture_timers_ok (s\<lparr>currentAdaptiveFrameRate := i\<rparr>) = capture_timers_ok s"
  "capture_timers_ok (s\<lparr>frameDropCount := j\<rparr>) = capture_timers_ok s"
  "capture_timers_ok (s\<lparr>frameCount := k\<rparr>) = capture_timers_ok s"
  "capture_timers_ok (s\<lparr>lastFrameSentTime := l\<rparr>) = capture_timers_ok s"
  "capture_timers_ok (s\<lparr>settings := m\<rparr>) = capture_timers_ok s"
  "capture_timers_ok (s\<lparr>currentStream := n\<rparr>) = capture_timers_ok s"
  "capture_timers_ok (s\<lparr>encoding := qs\<rparr>) = capture_timers_ok s"
  by (simp_all add: capture_timers_ok_def cong: option.case_cong)

lemma cap_ok_setupProcessingFailsafe:
  "capture_timers_ok s \<Longrightarrow> capture_timers_ok (setupProcessingFailsafe now s)"
  by (simp add: setupProcessingFailsafe_def Let_def cap_ok_other_fields cap_ok_setTimeout
                cap_ok_clearTimeout)

lemma cap_ok_startFrameCapture:
  "capture_timers_ok s \<Longrightarrow> capture_timers_ok (startFrameCapture now s)"
  by (auto simp: capture_timers_ok_def startFrameCapture_def setInterval_def Let_def list_all_iff
           split: option.splits)

lemma stopFrameCapture_no_capture_timer:
  assumes "capture_timers_ok s"
  shows "list_all (\<lambda>t. handler t \<noteq> CaptureTick) (timers (stopFrameCapture s))"
  using assms
  by (auto simp: capture_timers_ok_def stopFrameCapture_def clearTimeout_def Let_def list_all_iff
           split: option.splits)

lemma cap_ok_stopFrameCapture:
  "capture_timers_ok s \<Longrightarrow> capture_timers_ok (stopFrameCapture s)"
  by (auto simp: capture_timers_ok_def stopFrameCapture_def clearTimeout_def Let_def list_all_iff
           split: option.splits)

lemma cap_ok_frameTick:
  "capture_timers_ok s \<Longrightarrow> capture_timers_ok (fst (frameTick ready now s))"
  by (simp add: frameTick_def Let_def cap_ok_other_fields)

lemma cap_ok_run_callback:
  "capture_timers_ok s \<Longrightarrow> capture_timers_ok (run_callback cb ready now s)"
  by (cases cb)
     (simp_all add: run_callback_CaptureTick run_callback_other cap_ok_frameTick
                    failsafe_check_def enableFallbackMode_def cap_ok_other_fields)

lemma cap_ok_requeue:
  "capture_timers_ok s \<Longrightarrow>
   capture_timers_ok (s\<lparr>timers := map (\<lambda>u. if tid u = i then u\<lparr>due := d\<rparr> else u) (timers s)\<rparr>)"
  by (auto simp: capture_timers_ok_def list_all_iff split: option.splits)

lemma cap_ok_fire:
  assumes "capture_timers_ok s"
  shows "capture_timers_ok (fire i ready now s)"
proof (cases "find (\<lambda>t. tid t = i) (timers s)")
  case None
  with assms show ?thesis by (simp add: fire_def)
next
  case (Some t)
  with assms show ?thesis
    by (cases "every t")
       (simp_all add: fire_def cap_ok_run_callback cap_ok_timers_filter cap_ok_requeue)
qed

lemma cap_ok_reader_onload:
  "capture_timers_ok s \<Longrightarrow> capture_timers_ok (fst (reader_onload q now s))"
  by (simp add: reader_onload_def Let_def cap_ok_other_fields cap_ok_setTimeout
           split: option.splits)

lemma cap_ok_clear_warning:
  "capture_timers_ok s \<Longrightarrow> capture_timers_ok (clear_warning s)"
  by (simp add: clear_warning_def cap_ok_other_fields cap_ok_clearTimeout split: option.splits)

lemma cap_ok_rearm_failsafe:
  "capture_timers_ok s \<Longrightarrow> capture_timers_ok (rearm_failsafe now s)"
  by (simp add: rearm_failsafe_def Let_def disableFallbackMode_def cap_ok_other_fields
                cap_ok_clearTimeout cap_ok_setupProcessingFailsafe)

lemma cap_ok_trackLatency:
  "capture_timers_ok s \<Longrightarrow> capture_timers_ok (trackLatency ts now s)"
  by (simp add: trackLatency_def Let_def adjustFrameRate_def resetTowardsBase_def
                cap_ok_other_fields split: option.splits)

lemma cap_ok_processed_frame:
  "capture_timers_ok s \<Longrightarrow> capture_timers_ok (processed_frame data oc now s)"
  by (cases oc)
     (simp_all add: processed_frame_def Let_def mark_done_def cap_ok_other_fields
                    cap_ok_rearm_failsafe cap_ok_clear_warning cap_ok_trackLatency)

lemma cap_ok_restart:
  "capture_timers_ok s \<Longrightarrow> capture_timers_ok (on_restart_click now s)"
  by (simp add: on_restart_click_def Let_def disableFallbackMode_def cap_ok_other_fields
                cap_ok_clearTimeout cap_ok_clear_warning cap_ok_stopFrameCapture
                cap_ok_setTimeout split: option.splits)

lemma cap_ok_handle:
  "capture_timers_ok s \<Longrightarrow> capture_timers_ok (handle e s)"
  by (cases e)
     (simp_all add: cap_ok_other_fields on_loadedmetadata_def cap_ok_setupProcessingFailsafe
                    cap_ok_startFrameCapture cap_ok_fire cap_ok_reader_onload
                    cap_ok_processed_frame on_connect_def cap_ok_stopFrameCapture
                    on_disconnect_def on_visibilitychange_def cap_ok_restart
                    applySettings_def Let_def handle_FrameEncoded
               del: handle.simps(4))

lemma cap_ok_run:
  "capture_timers_ok s \<Longrightarrow> capture_timers_ok (run es s)"
  by (induction es arbitrary: s) (simp_all add: cap_ok_handle)

lemma cap_ok_init: "capture_timers_ok (init cfg)"
  by (simp add: capture_timers_ok_def init_def)

lemma stopFrameCapture_other_timers:
  "capture_timers_ok s \<Longrightarrow>
   filter (\<lambda>t. handler t \<noteq> CaptureTick) (timers (stopFrameCapture s))
     = filter (\<lambda>t. handler t \<noteq> CaptureTick) (timers s)"
  by (auto simp: capture_timers_ok_def stopFrameCapture_def clearTimeout_def Let_def list_all_iff
           split: option.splits intro!: filter_cong)

lemma disconnect_no_capture_timer:
  assumes "capture_timers_ok s"
  shows "list_all (\<lambda>t. handler t \<noteq> CaptureTick) (timers (on_disconnect now s))"
  using stopFrameCapture_no_capture_timer [OF assms]
  by (auto simp: on_disconnect_def setupProcessingFailsafe_upd clearTimeout_upd list_all_iff
           split: option.splits)

lemma disconnect_failsafe_pending:
  "\<lparr>tid = next_timer s, handler = Failsafe, due = now + 10000, every = None\<rparr>
     \<in> set (timers (on_disconnect now s))"
  by (simp add: on_disconnect_def setupProcessingFailsafe_upd stopFrameCapture_def Let_def
                clearTimeout_upd split: option.splits)

text \<open>
  Claim C6, as stated, fails: only the capture interval is cancelled. In a session that
  has sent one frame, hiding the tab leaves the failsafe timer and the stall-warning
  timer in the table; the failsafe callback then runs at 11000, after the capture has
  stopped, and switches the display to Fallback. A transport disconnect leaves the
  stall-warning timer and arms a new failsafe timer.
\<close>

theorem failsafe_and_warning_survive_stop:
  "(let s = handle (VisibilityChange True 2000) sending;
        s' = handle (Disconnect 2000) sending
    in \<not> isStreaming s \<and> map handler (timers s) = [Failsafe, StallWarning]
       \<and> \<not> fallbackMode s \<and> fallbackMode (handle (TimerDue 2 True 11000) s)
       \<and> \<not> isStreaming s' \<and> map handler (timers s') = [StallWarning, Failsafe]
       \<and> map due (timers s') = [6200, 12000])"
  by code_simp

text \<open>
  Claim C6, amended. In every state the client can reach, a session stop
  (\<open>stopFrameCapture\<close>), a tab-hidden event and a transport disconnect cancel the
  capture-tick timer: no timer that runs the capture tick is left. The stall-warning
  and failsafe timers are not cancelled by a stop or by hiding the tab, which leave every
  other timer as it was, and a disconnect arms a failsafe timer due 10 seconds later.
\<close>

theorem capture_timer_cancelled_on_stop:
  assumes "s = run es (init cfg)"
  shows "list_all (\<lambda>t. handler t \<noteq> CaptureTick) (timers (stopFrameCapture s))
       \<and> list_all (\<lambda>t. handler t \<noteq> CaptureTick) (timers (handle (VisibilityChange True now) s))
       \<and> list_all (\<lambda>t. handler t \<noteq> CaptureTick) (timers (handle (Disconnect now) s))
       \<and> filter (\<lambda>t. handler t \<noteq> CaptureTick) (timers (handle (VisibilityChange True now) s))
           = filter (\<lambda>t. handler t \<noteq> CaptureTick) (timers s)
       \<and> \<lparr>tid = next_timer s, handler = Failsafe, due = now + 10000, every = None\<rparr>
           \<in> set (timers (handle (Disconnect now) s))"
proof -
  have ok: "capture_timers_ok s"
    unfolding assms by (rule cap_ok_run [OF cap_ok_init])
  show ?thesis
    using stopFrameCapture_no_capture_timer [OF ok] disconnect_no_capture_timer [OF ok]
          stopFrameCapture_other_timers [OF ok] disconnect_failsafe_pending [of s now]
    by (simp add: on_visibilitychange_def)
qed

text \<open>The session that has sent one frame, stopped at 2000.\<close>

theorem capture_timer_cancelled_on_stop_witness:
  "map handler (timers sending) = [CaptureTick, Failsafe, StallWarning]
   \<and> list_all (\<lambda>t. handler t \<noteq> CaptureTick) (timers (stopFrameCapture sending))
   \<and> list_all (\<lambda>t. handler t \<noteq> CaptureTick) (timers (handle (VisibilityChange True 2000) sending))
   \<and> list_all (\<lambda>t. handler t \<noteq> CaptureTick) (timers (handle (Disconnect 2000) sending))
   \<and> filter (\<lambda>t. handler t \<noteq> CaptureTick) (timers (handle (VisibilityChange True 2000) sending))
       = filter (\<lambda>t. handler t \<noteq> CaptureTick) (timers sending)
   \<and> \<lparr>tid = 4, handler = Failsafe, due = 12000, every = None\<rparr>
       \<in> set (timers (handle (Disconnect 2000) sending))"
proof -
  have v: "map handler (timers sending) = [CaptureTick, Failsafe, StallWarning]"
    "next_timer sending = 4"
    by code_simp+
  from capture_timer_cancelled_on_stop [OF sending_def, of 2000] show ?thesis
    using v(1) by (simp add: v(2))
qed

end
